theory Spec2Isabelle
  imports Complex_Main "HOL-Library.Word" "HOL-Library.Sublist"
begin

section \<open>The interview room's voice session\<close>

text \<open>
  A model of the session engine of \<^verbatim>\<open>src/components/InterviewRoom.tsx\<close>: the capture
  callback that turns microphone frames into PCM16 messages, the \<^verbatim>\<open>onmessage\<close> handler
  that schedules the agent's audio and assembles the transcript, the countdown effect and
  \<^verbatim>\<open>handleEndInterview\<close>.

  The component's \<^verbatim>\<open>useState\<close> values and \<^verbatim>\<open>useRef\<close> cells are the fields of one record,
  and every handler is a function from that record to the updated record. What the
  handlers do to the outside world is logged in further fields of the record: the
  \<^verbatim>\<open>source.start\<close> and \<^verbatim>\<open>stop\<close> calls, the \<^verbatim>\<open>sendRealtimeInput\<close> calls and the
  \<^verbatim>\<open>onComplete\<close> calls. What the outside world gives the handlers is an argument:
  the audio clock \<^verbatim>\<open>ctx.currentTime\<close> read by the handler, the wall clock
  \<^verbatim>\<open>Date.now()\<close> (a function from the number of earlier readings to the value read),
  and whether \<^verbatim>\<open>close()\<close> throws.
\<close>

subsection \<open>Data\<close>

text \<open>\<^verbatim>\<open>InterviewSession\<close> of \<^verbatim>\<open>src/types.ts\<close> and the entries of its transcript.\<close>

datatype speaker = AI | Candidate

record turn =
  speaker :: speaker
  turn_text :: string
  timestamp :: int

record interview_session =
  startTime :: int
  durationLimit :: int
  recordingUrl :: string
  session_transcript :: "turn list"

text \<open>The \<^verbatim>\<open>GeminiBlob\<close> passed to \<^verbatim>\<open>sendRealtimeInput\<close>.\<close>

record pcm_blob =
  data :: string
  mimeType :: string

text \<open>
  The \<^verbatim>\<open>data\<close> field of \<^verbatim>\<open>serverContent.modelTurn.parts[0].inlineData\<close>, as far as the
  handler looks at it: it is absent or empty (the test of line 239 fails), or it is there
  and the imported \<^verbatim>\<open>decodeAudioData\<close>, whose source is not part of the repository's
  files at hand, rejects, or returns an audio buffer of a given duration. The type
  \<^typ>\<open>'t\<close> is the type of the audio clock's times and durations; the handler only
  compares and adds them.
\<close>

datatype 't inline_data = Absent | Undecodable | Pcm 't

text \<open>
  A \<^verbatim>\<open>LiveServerMessage\<close>, reduced to the five parts of \<^verbatim>\<open>serverContent\<close> that
  \<^verbatim>\<open>onmessage\<close> reads. One message may carry several of them. A transcription is given
  by its \<^verbatim>\<open>text\<close>.
\<close>

record 't server_message =
  inlineData :: "'t inline_data"
  inputTranscription :: "string option"
  outputTranscription :: "string option"
  turnComplete :: bool
  interrupted :: bool

text \<open>
  An \<^verbatim>\<open>AudioBufferSourceNode\<close> made by the handler: the node's identity, the time passed to
  \<^verbatim>\<open>source.start\<close> and the duration of its buffer.
\<close>

record 't buffer_source =
  node :: nat
  startAt :: 't
  duration :: 't

datatype recorder_state = Inactive | Recording | Paused

text \<open>
  When React runs the function passed to \<^verbatim>\<open>setTranscript\<close>. The set function of
  \<^verbatim>\<open>useState\<close> queues an updater function, and React runs the queued updaters when it
  renders the component the next time (the updates made in one callback are batched); it
  may also run an updater inside the call, when no update of the component is pending.
  The updater of this component reads two mutable cells, so the time at which it runs
  decides what it appends. The React runtime is not part of the repository, and the
  model takes the time as an argument of the handler.
\<close>

datatype updater_time = AtCall | AtRender

text \<open>
  The component's state. The first block are the \<^verbatim>\<open>useState\<close> values, the second the
  \<^verbatim>\<open>useRef\<close> cells (a reference that is null or not is a \<^typ>\<open>bool\<close>; the set of
  sources is a list in insertion order, as a JavaScript \<^verbatim>\<open>Set\<close> iterates), the third
  the model's bookkeeping: the installed callbacks, the log of effects, the number of
  \<^verbatim>\<open>Date.now()\<close> readings so far and the number of transcript updaters that React has
  queued and not yet run.
\<close>

record 't room =
  timeLeft :: int
  isActive :: bool
  transcript :: "turn list"
  currentAIResponse :: string
  currentCandidateInput :: string
  isAISpeaking :: bool

  streamRef :: bool
  mediaRecorder :: "recorder_state option"
  sessionRef :: bool
  nextStartTime :: 't
  audioContexts :: bool
  sources :: "'t buffer_source list"
  aiBuffer :: string
  candidateBuffer :: string

  processor :: bool
  timer :: bool
  channelClosed :: bool
  created :: nat
  started :: "'t buffer_source list"
  stopped :: "nat list"
  sent :: "pcm_blob list"
  completed :: "interview_session list"
  reads :: nat
  queued :: nat

text \<open>The state of a freshly mounted component (lines 13 to 35).\<close>

definition initial :: "('t::zero) room" where
  "initial =
     \<lparr>timeLeft = 25 * 60, isActive = False, transcript = [], currentAIResponse = [],
      currentCandidateInput = [], isAISpeaking = False,
      streamRef = False, mediaRecorder = None, sessionRef = False, nextStartTime = 0,
      audioContexts = False, sources = [], aiBuffer = [], candidateBuffer = [],
      processor = False, timer = False, channelClosed = False, created = 0, started = [],
      stopped = [], sent = [], completed = [], reads = 0, queued = 0\<rparr>"

subsection \<open>Starting the session\<close>

text \<open>
  \<^verbatim>\<open>initCamera\<close> stores the media stream; \<^verbatim>\<open>startSession\<close> returns at once without
  one, and otherwise starts the recorder, creates the two audio contexts and connects.
  The channel's \<^verbatim>\<open>onopen\<close> callback sets \<^verbatim>\<open>isActive\<close> and installs the capture
  callback; line 288 stores the session once the connection promise has resolved;
  \<^verbatim>\<open>onclose\<close> clears \<^verbatim>\<open>isActive\<close>.
\<close>

definition initCamera :: "'t room \<Rightarrow> 't room" where
  "initCamera st = st\<lparr>streamRef := True\<rparr>"

definition startSession :: "'t room \<Rightarrow> 't room" where
  "startSession st =
     (if streamRef st then st\<lparr>mediaRecorder := Some Recording, audioContexts := True\<rparr>
      else st)"

definition onopen :: "'t room \<Rightarrow> 't room" where
  "onopen st = st\<lparr>isActive := True, processor := True\<rparr>"

definition session_resolved :: "'t room \<Rightarrow> 't room" where
  "session_resolved st = st\<lparr>sessionRef := True\<rparr>"

definition onclose :: "'t room \<Rightarrow> 't room" where
  "onclose st = st\<lparr>isActive := False\<rparr>"

subsection \<open>The capture callback (lines 224 to 236)\<close>

text \<open>
  A sample is a 32-bit float, a rational number; its product with 32768 is exact in
  JavaScript's double precision. Storing a number into an \<^verbatim>\<open>Int16Array\<close> applies the
  language's \<^verbatim>\<open>ToInt16\<close>: the number is truncated towards zero and reduced modulo
  \<open>2 ^ 16\<close> into the signed range, which is what \<^const>\<open>sint\<close> reads off a 16-bit word.
\<close>

definition js_trunc :: "real \<Rightarrow> int" where
  "js_trunc x = (if x < 0 then - \<lfloor>- x\<rfloor> else \<lfloor>x\<rfloor>)"

definition ToInt16 :: "real \<Rightarrow> 16 word" where
  "ToInt16 x = word_of_int (js_trunc x)"

text \<open>
  \<^verbatim>\<open>new Uint8Array(int16.buffer)\<close>: the two bytes of each sample, the low byte first (the
  byte order of every platform the browser runs on).
\<close>

definition int16_bytes :: "16 word \<Rightarrow> 8 word list" where
  "int16_bytes w = [ucast w, ucast (drop_bit 8 w)]"

definition b64_alphabet :: string where
  "b64_alphabet = ''ABCDEFGHIJKLMNOPQRSTUVWXYZabcdefghijklmnopqrstuvwxyz0123456789+/''"

definition b64_digit :: "nat \<Rightarrow> char" where
  "b64_digit n = b64_alphabet ! (n mod 64)"

text \<open>
  Modelled from the spec: \<^verbatim>\<open>encode\<close> of \<^verbatim>\<open>utils/audio-utils\<close> is imported by the
  component and its source is missing; the spec gives it as the base64 framing of the
  byte buffer. This is base64 with the standard alphabet and padding.
\<close>

fun encode :: "8 word list \<Rightarrow> string" where
  "encode [] = []"
| "encode [a] =
     (let n = unat a * 65536
      in [b64_digit (n div 262144), b64_digit (n div 4096), CHR ''='', CHR ''=''])"
| "encode [a, b] =
     (let n = unat a * 65536 + unat b * 256
      in [b64_digit (n div 262144), b64_digit (n div 4096), b64_digit (n div 64), CHR ''=''])"
| "encode (a # b # c # rest) =
     (let n = unat a * 65536 + unat b * 256 + unat c
      in [b64_digit (n div 262144), b64_digit (n div 4096), b64_digit (n div 64), b64_digit n]
         @ encode rest)"

text \<open>
  The callback itself. It reads no state of the component: whatever \<^verbatim>\<open>isActive\<close> is,
  the frame is converted and handed to \<^verbatim>\<open>sendRealtimeInput\<close> (the connection promise has
  resolved by the time a frame arrives, since the callback is installed by \<^verbatim>\<open>onopen\<close>).
\<close>

definition onaudioprocess :: "real list \<Rightarrow> 't room \<Rightarrow> 't room" where
  "onaudioprocess inputData st =
     (let int16 = map (\<lambda>x. ToInt16 (x * 32768)) inputData;
          pcmBlob = \<lparr>data = encode (concat (map int16_bytes int16)),
                     mimeType = ''audio/pcm;rate=16000''\<rparr>
      in st\<lparr>sent := sent st @ [pcmBlob]\<rparr>)"

text \<open>
  The capture device delivering a frame: the callback runs if it has been installed,
  and nothing runs otherwise.
\<close>

definition capture_frame :: "real list \<Rightarrow> 't room \<Rightarrow> 't room" where
  "capture_frame inputData st = (if processor st then onaudioprocess inputData st else st)"

subsection \<open>The message handler (lines 238 to 283)\<close>

text \<open>
  Lines 246 to 255, once the chunk has been decoded: the new source starts at
  \<^verbatim>\<open>nextStartTimeRef.current\<close>, which then advances by the buffer's duration.
\<close>

definition schedule :: "('t::plus) \<Rightarrow> 't room \<Rightarrow> 't room" where
  "schedule d st =
     (let source = \<lparr>node = created st, startAt = nextStartTime st, duration = d\<rparr>
      in st\<lparr>created := Suc (created st), started := started st @ [source],
            nextStartTime := nextStartTime st + d, sources := sources st @ [source]\<rparr>)"

text \<open>The \<^verbatim>\<open>ended\<close> listener of the source with node \<open>n\<close> (lines 249 to 252).\<close>

definition ended :: "nat \<Rightarrow> 't room \<Rightarrow> 't room" where
  "ended n st =
     (let remaining = filter (\<lambda>s. node s \<noteq> n) (sources st)
      in st\<lparr>sources := remaining,
            isAISpeaking := (if remaining = [] then False else isAISpeaking st)\<rparr>)"

text \<open>
  The function passed to \<^verbatim>\<open>setTranscript\<close> (lines 268 to 272). It reads the two buffer
  cells and the wall clock when it runs: a Candidate record if the candidate's buffer is
  not empty, then an AI record if the agent's buffer is not empty.
\<close>

definition transcript_updater :: "(nat \<Rightarrow> int) \<Rightarrow> 't room \<Rightarrow> 't room" where
  "transcript_updater wall st =
     (let st1 = (if candidateBuffer st = [] then st
                 else st\<lparr>transcript := transcript st @
                            [\<lparr>speaker = Candidate, turn_text = candidateBuffer st,
                              timestamp = wall (reads st)\<rparr>],
                          reads := Suc (reads st)\<rparr>)
      in if aiBuffer st1 = [] then st1
         else st1\<lparr>transcript := transcript st1 @
                     [\<lparr>speaker = AI, turn_text = aiBuffer st1,
                       timestamp = wall (reads st1)\<rparr>],
                   reads := Suc (reads st1)\<rparr>)"

text \<open>
  The turn-complete branch (lines 266 to 276): the updater is passed to
  \<^verbatim>\<open>setTranscript\<close> if a buffer is not empty, and then both buffers and both displayed
  fragments are emptied.
\<close>

definition on_turnComplete :: "updater_time \<Rightarrow> (nat \<Rightarrow> int) \<Rightarrow> 't room \<Rightarrow> 't room" where
  "on_turnComplete when wall st =
     (let st1 = (if candidateBuffer st = [] \<and> aiBuffer st = [] then st
                 else (case when of
                         AtCall \<Rightarrow> transcript_updater wall st
                       | AtRender \<Rightarrow> st\<lparr>queued := Suc (queued st)\<rparr>))
      in st1\<lparr>aiBuffer := [], candidateBuffer := [],
             currentAIResponse := [], currentCandidateInput := []\<rparr>)"

text \<open>React rendering the component: the queued updaters run, in order.\<close>

definition render :: "(nat \<Rightarrow> int) \<Rightarrow> 't room \<Rightarrow> 't room" where
  "render wall st = (transcript_updater wall ^^ queued st) (st\<lparr>queued := 0\<rparr>)"

text \<open>The interrupted branch (lines 277 to 282).\<close>

definition on_interrupted :: "('t::zero) room \<Rightarrow> 't room" where
  "on_interrupted st =
     st\<lparr>stopped := stopped st @ map node (sources st), sources := [],
        nextStartTime := 0, isAISpeaking := False\<rparr>"

text \<open>Lines 258 to 282: the four branches that follow the audio branch.\<close>

definition after_audio ::
  "updater_time \<Rightarrow> (nat \<Rightarrow> int) \<Rightarrow> 't server_message \<Rightarrow> ('t::zero) room \<Rightarrow> 't room" where
  "after_audio when wall msg st =
     (let st1 = (case inputTranscription msg of
                   None \<Rightarrow> st
                 | Some t \<Rightarrow> st\<lparr>candidateBuffer := candidateBuffer st @ t,
                                currentCandidateInput := candidateBuffer st @ t\<rparr>);
          st2 = (case outputTranscription msg of
                   None \<Rightarrow> st1
                 | Some t \<Rightarrow> st1\<lparr>aiBuffer := aiBuffer st1 @ t,
                                 currentAIResponse := aiBuffer st1 @ t\<rparr>);
          st3 = (if turnComplete msg then on_turnComplete when wall st2 else st2)
      in if interrupted msg then on_interrupted st3 else st3)"

text \<open>
  The handler, for a message whose audio (if it has any) is decoded before the next
  event is handled; \<open>now\<close> is \<^verbatim>\<open>ctx.currentTime\<close> at line 244. When the decoder rejects,
  the rejection leaves the handler and none of the later branches runs.
\<close>

definition onmessage ::
  "updater_time \<Rightarrow> (nat \<Rightarrow> int) \<Rightarrow> 't \<Rightarrow> 't server_message \<Rightarrow>
   ('t::{linorder,plus,zero}) room \<Rightarrow> 't room" where
  "onmessage when wall now msg st =
     (case inlineData msg of
        Absent \<Rightarrow> after_audio when wall msg st
      | Undecodable \<Rightarrow>
          (if audioContexts st
           then st\<lparr>isAISpeaking := True, nextStartTime := max (nextStartTime st) now\<rparr>
           else after_audio when wall msg (st\<lparr>isAISpeaking := True\<rparr>))
      | Pcm d \<Rightarrow>
          (if audioContexts st
           then after_audio when wall msg
                  (schedule d
                     (st\<lparr>isAISpeaking := True, nextStartTime := max (nextStartTime st) now\<rparr>))
           else after_audio when wall msg (st\<lparr>isAISpeaking := True\<rparr>)))"

text \<open>Messages handled one after the other, each with the audio clock's time it meets.\<close>

fun handle_all ::
  "updater_time \<Rightarrow> (nat \<Rightarrow> int) \<Rightarrow> ('t \<times> 't server_message) list \<Rightarrow>
   ('t::{linorder,plus,zero}) room \<Rightarrow> 't room" where
  "handle_all when wall [] st = st"
| "handle_all when wall ((now, msg) # rest) st =
     handle_all when wall rest (onmessage when wall now msg st)"

subsection \<open>The countdown and the end of the interview (lines 141 to 172)\<close>

text \<open>
  \<^verbatim>\<open>handleEndInterview\<close>. An exception of \<^verbatim>\<open>close()\<close> is caught by the empty handler of
  line 156, so the function goes on in the same way whether \<open>close_throws\<close> or not.
  \<open>blob_url\<close> is what \<^verbatim>\<open>URL.createObjectURL\<close> returns for the recording.
\<close>

definition handleEndInterview ::
  "(nat \<Rightarrow> int) \<Rightarrow> bool \<Rightarrow> string \<Rightarrow> 't room \<Rightarrow> 't room" where
  "handleEndInterview wall close_throws blob_url st =
     (let st1 = st\<lparr>isActive := False\<rparr>;
          st2 = (if sessionRef st1 \<and> \<not> close_throws then st1\<lparr>channelClosed := True\<rparr>
                 else st1);
          recording = (case mediaRecorder st2 of
                         None \<Rightarrow> False
                       | Some Inactive \<Rightarrow> False
                       | Some _ \<Rightarrow> True);
          st3 = (if recording then st2\<lparr>mediaRecorder := Some Inactive\<rparr> else st2);
          url = (if recording then blob_url else [])
      in st3\<lparr>reads := Suc (reads st3),
             completed := completed st3 @
               [\<lparr>startTime = wall (reads st3) - (25 * 60 - timeLeft st3) * 1000,
                 durationLimit = 25 * 60,
                 recordingUrl = url,
                 session_transcript = transcript st3\<rparr>]\<rparr>)"

text \<open>
  The countdown effect, run by React after a render in which \<^verbatim>\<open>isActive\<close> or
  \<^verbatim>\<open>timeLeft\<close> has changed: the interval of the previous run is cleared, and then a new
  interval is set, or the interview is ended, or nothing is done. The interval's callback
  is \<open>tick\<close>.
\<close>

definition countdown_effect ::
  "(nat \<Rightarrow> int) \<Rightarrow> bool \<Rightarrow> string \<Rightarrow> 't room \<Rightarrow> 't room" where
  "countdown_effect wall close_throws blob_url st =
     (if isActive st \<and> timeLeft st > 0 then st\<lparr>timer := True\<rparr>
      else if timeLeft st = 0 \<and> isActive st
           then handleEndInterview wall close_throws blob_url (st\<lparr>timer := False\<rparr>)
           else st\<lparr>timer := False\<rparr>)"

definition tick :: "'t room \<Rightarrow> 't room" where
  "tick st = (if timer st then st\<lparr>timeLeft := timeLeft st - 1\<rparr> else st)"

text \<open>
  The button that calls \<^verbatim>\<open>handleEndInterview\<close> is rendered only while \<^verbatim>\<open>isActive\<close>
  holds.
\<close>

definition end_button ::
  "(nat \<Rightarrow> int) \<Rightarrow> bool \<Rightarrow> string \<Rightarrow> 't room \<Rightarrow> 't room" where
  "end_button wall close_throws blob_url st =
     (if isActive st then handleEndInterview wall close_throws blob_url st else st)"

subsection \<open>Events\<close>

text \<open>A message that carries one decodable audio chunk of duration \<open>d\<close> and nothing else.\<close>

definition audio_chunk :: "'t \<Rightarrow> 't server_message" where
  "audio_chunk d =
     \<lparr>inlineData = Pcm d, inputTranscription = None, outputTranscription = None,
      turnComplete = False, interrupted = False\<rparr>"

text \<open>A message without any of the five parts; the messages of the examples update it.\<close>

definition empty_message :: "'t server_message" where
  "empty_message =
     \<lparr>inlineData = Absent, inputTranscription = None, outputTranscription = None,
      turnComplete = False, interrupted = False\<rparr>"

text \<open>A message that carries one transcription fragment of a speaker and nothing else.\<close>

fun delta :: "speaker \<Rightarrow> string \<Rightarrow> 't server_message" where
  "delta Candidate t = empty_message\<lparr>inputTranscription := Some t\<rparr>"
| "delta AI t = empty_message\<lparr>outputTranscription := Some t\<rparr>"

text \<open>
  Everything that can happen to the component, one event at a time (JavaScript runs one
  callback to its end before the next): the callbacks of the previous sections, with what
  the environment decides as arguments of the event.
\<close>

datatype 't event =
    Camera
  | Start
  | Opened
  | Resolved
  | Closed
  | Frame "real list"
  | Message updater_time 't "'t server_message"
  | Ended nat
  | Render
  | Effect bool string
  | Tick
  | EndButton bool string

fun step :: "(nat \<Rightarrow> int) \<Rightarrow> 't event \<Rightarrow> ('t::{linorder,plus,zero}) room \<Rightarrow> 't room" where
  "step wall Camera st = initCamera st"
| "step wall Start st = startSession st"
| "step wall Opened st = onopen st"
| "step wall Resolved st = session_resolved st"
| "step wall Closed st = onclose st"
| "step wall (Frame inputData) st = capture_frame inputData st"
| "step wall (Message when now msg) st = onmessage when wall now msg st"
| "step wall (Ended n) st = ended n st"
| "step wall Render st = render wall st"
| "step wall (Effect close_throws blob_url) st = countdown_effect wall close_throws blob_url st"
| "step wall Tick st = tick st"
| "step wall (EndButton close_throws blob_url) st = end_button wall close_throws blob_url st"

fun run :: "(nat \<Rightarrow> int) \<Rightarrow> 't event list \<Rightarrow> ('t::{linorder,plus,zero}) room \<Rightarrow> 't room" where
  "run wall [] st = st"
| "run wall (e # es) st = run wall es (step wall e st)"

text \<open>
  A session whose channel has opened: the camera is ready, \<^verbatim>\<open>startSession\<close> has run,
  \<^verbatim>\<open>onopen\<close> has been called and the connection promise has resolved.
\<close>

definition opened :: "('t::zero) room" where
  "opened = session_resolved (onopen (startSession (initCamera initial)))"

subsection \<open>Auxiliary notions of the proofs\<close>

text \<open>
  The schedule in the spec's words: each chunk of a list of arrival times and durations
  starts at the maximum of the previous chunk's end \<open>b\<close> and the clock's time at its
  arrival. It is compared with what the handler does in \<open>handle_all_chunks\<close>.
\<close>

fun planned :: "nat \<Rightarrow> ('t::{linorder,plus}) \<Rightarrow> ('t \<times> 't) list \<Rightarrow> 't buffer_source list" where
  "planned n b [] = []"
| "planned n b ((now, d) # cs) =
     \<lparr>node = n, startAt = max b now, duration = d\<rparr> # planned (Suc n) (max b now + d) cs"

text \<open>
  What a speaker has said in a list of fragments, each with the audio clock's time at
  which it is handled: the concatenation of the speaker's fragments in arrival order.
\<close>

definition spoken :: "speaker \<Rightarrow> ('t \<times> speaker \<times> string) list \<Rightarrow> string" where
  "spoken who ds = concat (map (\<lambda>(now, w, t). if w = who then t else []) ds)"

text \<open>
  The invariant behind the order of the transcript: the timestamps do not decrease along
  it, and none is later than the wall clock's next reading.
\<close>

definition chronological :: "(nat \<Rightarrow> int) \<Rightarrow> 't room \<Rightarrow> bool" where
  "chronological wall st \<longleftrightarrow>
     sorted (map timestamp (transcript st))
     \<and> (\<forall>r \<in> set (transcript st). timestamp r \<le> wall (reads st))"

section \<open>Properties\<close>

lemmas start_defs =
  opened_def initial_def initCamera_def startSession_def onopen_def session_resolved_def
  onclose_def

lemmas encoder_defs = ToInt16_def js_trunc_def int16_bytes_def b64_digit_def b64_alphabet_def

lemmas handler_defs =
  onmessage_def after_audio_def on_turnComplete_def on_interrupted_def schedule_def
  transcript_updater_def audio_chunk_def empty_message_def Let_def

lemmas teardown_defs = handleEndInterview_def countdown_effect_def end_button_def tick_def

lemmas event_defs =
  initCamera_def startSession_def onopen_def session_resolved_def onclose_def capture_frame_def
  onaudioprocess_def ended_def tick_def countdown_effect_def end_button_def
  handleEndInterview_def render_def

subsection \<open>The capture encoder\<close>

lemma sint_ToInt16: "sint (ToInt16 x) = (js_trunc x + 32768) mod 65536 - 32768"
  unfolding ToInt16_def by (simp add: int_word_sint)






lemma sint_ToInt16_floor:
  "sint (ToInt16 v) = ((if v < 0 then - \<lfloor>- v\<rfloor> else \<lfloor>v\<rfloor>) + 32768) mod 65536 - 32768"
  by (simp only: sint_ToInt16 js_trunc_def)

lemma sint_ToInt16_above:
  assumes "32768 \<le> v" and "v < 65536"
  shows "sint (ToInt16 v) = \<lfloor>v\<rfloor> - 65536 \<and> sint (ToInt16 v) < 0"
proof -
  define f where "f = \<lfloor>v\<rfloor>"
  have lo: "32768 \<le> f" using assms(1) by (simp add: f_def le_floor_iff)
  have hi: "f < 65536" using assms(2) by (simp add: f_def floor_less_iff)
  have e: "f + 32768 = (f - 32768) + 65536" by arith
  have "(f + 32768) mod 65536 = ((f - 32768) + 65536) mod 65536" by (subst e) (rule refl)
  also have "\<dots> = (f - 32768) mod 65536" by (simp only: mod_add_self2)
  also have "\<dots> = f - 32768" using lo hi by (simp add: mod_pos_pos_trivial)
  finally have m: "(f + 32768) mod 65536 = f - 32768" .
  have "\<not> v < 0" using assms(1) by simp
  then have "sint (ToInt16 v) = (f + 32768) mod 65536 - 32768"
    by (simp add: sint_ToInt16_floor f_def)
  then have "sint (ToInt16 v) = f - 65536" using m by simp
  then show ?thesis using hi by (simp add: f_def)
qed

lemma sint_ToInt16_below:
  assumes "v \<le> - 32769" and "- 65536 < v"
  shows "sint (ToInt16 v) = 65536 - \<lfloor>- v\<rfloor> \<and> 0 < sint (ToInt16 v)"
proof -
  define f where "f = \<lfloor>- v\<rfloor>"
  have lo: "32769 \<le> f" using assms(1) by (simp add: f_def le_floor_iff)
  have hi: "f < 65536" using assms(2) by (simp add: f_def floor_less_iff)
  have e: "- f + 32768 = (98304 - f) - 65536" by arith
  have "(- f + 32768) mod 65536 = ((98304 - f) - 65536) mod 65536" by (subst e) (rule refl)
  also have "\<dots> = (98304 - f) mod 65536" by (simp only: minus_mod_self2)
  also have "\<dots> = 98304 - f" using lo hi by (simp add: mod_pos_pos_trivial)
  finally have m: "(- f + 32768) mod 65536 = 98304 - f" .
  have "v < 0" using assms(1) by simp
  then have "sint (ToInt16 v) = (- f + 32768) mod 65536 - 32768"
    by (simp add: sint_ToInt16_floor f_def)
  then have "sint (ToInt16 v) = 65536 - f" using m by simp
  then show ?thesis using hi by (simp add: f_def)
qed

text \<open>
  Claim C10. A sample of exactly 1.0 is scaled to 32768 and stored as \<open>-32768\<close>; the
  samples 1.5 and \<open>-1.5\<close> are stored as \<open>-16384\<close> and 16384, and the frame of these three
  samples is sent as the bytes \<open>00 80 00 C0 00 40\<close>, in base64 \<^verbatim>\<open>AIAAwABA\<close>. For every
  sample the value stored is the product, truncated towards zero (the floor of a product
  that is not negative, minus the floor of the negated product otherwise), reduced modulo
  \<open>2 ^ 16\<close> into the signed range. So a product outside the 16-bit range wraps around and
  is not saturated: a sample from 1 up to, but not including, 2 is stored as the floor of
  its product minus 65536, a negative value, and a sample above \<open>-2\<close> whose product is
  \<open>-32769\<close> or less is stored as 65536 minus the floor of the negated product, a positive
  value.
\<close>

theorem full_scale_sample_wraps:
  "sint (ToInt16 (1 * 32768)) = - 32768
   \<and> sint (ToInt16 (1.5 * 32768)) = - 16384
   \<and> sint (ToInt16 (- 1.5 * 32768)) = 16384
   \<and> sent (onaudioprocess [1, 1.5, - 1.5] st) =
       sent st @ [\<lparr>data = ''AIAAwABA'', mimeType = ''audio/pcm;rate=16000''\<rparr>]
   \<and> sint (ToInt16 (x * 32768))
       = ((if x * 32768 < 0 then - \<lfloor>- (x * 32768)\<rfloor> else \<lfloor>x * 32768\<rfloor>) + 32768) mod 65536
         - 32768
   \<and> (1 \<le> x \<and> x < 2 \<longrightarrow>
        sint (ToInt16 (x * 32768)) = \<lfloor>x * 32768\<rfloor> - 65536
        \<and> sint (ToInt16 (x * 32768)) < 0)
   \<and> (x * 32768 \<le> - 32769 \<and> - 2 < x \<longrightarrow>
        sint (ToInt16 (x * 32768)) = 65536 - \<lfloor>- (x * 32768)\<rfloor>
        \<and> 0 < sint (ToInt16 (x * 32768)))"
proof -
  have one: "sint (ToInt16 (1 * 32768)) = - 32768" by (simp add: encoder_defs)
  have over: "sint (ToInt16 (1.5 * 32768)) = - 16384" by (simp add: encoder_defs)
  have under: "sint (ToInt16 (- 1.5 * 32768)) = 16384" by (simp add: encoder_defs)
  have frame: "sent (onaudioprocess [1, 1.5, - 1.5] st) =
       sent st @ [\<lparr>data = ''AIAAwABA'', mimeType = ''audio/pcm;rate=16000''\<rparr>]"
    by (simp add: onaudioprocess_def encoder_defs)
  have general: "sint (ToInt16 (x * 32768))
       = ((if x * 32768 < 0 then - \<lfloor>- (x * 32768)\<rfloor> else \<lfloor>x * 32768\<rfloor>) + 32768) mod 65536
         - 32768"
    by (rule sint_ToInt16_floor)
  have above: "sint (ToInt16 (x * 32768)) = \<lfloor>x * 32768\<rfloor> - 65536
        \<and> sint (ToInt16 (x * 32768)) < 0" if "1 \<le> x \<and> x < 2"
  proof (rule sint_ToInt16_above)
    show "32768 \<le> x * 32768" using that by simp
    show "x * 32768 < 65536" using that by simp
  qed
  have below: "sint (ToInt16 (x * 32768)) = 65536 - \<lfloor>- (x * 32768)\<rfloor>
        \<and> 0 < sint (ToInt16 (x * 32768))" if "x * 32768 \<le> - 32769 \<and> - 2 < x"
  proof (rule sint_ToInt16_below)
    show "x * 32768 \<le> - 32769" using that by simp
    show "- 65536 < x * 32768" using that by simp
  qed
  show ?thesis
  proof (intro conjI impI)
    show "sint (ToInt16 (1 * 32768)) = - 32768" by (rule one)
    show "sint (ToInt16 (1.5 * 32768)) = - 16384" by (rule over)
    show "sint (ToInt16 (- 1.5 * 32768)) = 16384" by (rule under)
    show "sent (onaudioprocess [1, 1.5, - 1.5] st) =
       sent st @ [\<lparr>data = ''AIAAwABA'', mimeType = ''audio/pcm;rate=16000''\<rparr>]"
      by (rule frame)
    show "sint (ToInt16 (x * 32768))
       = ((if x * 32768 < 0 then - \<lfloor>- (x * 32768)\<rfloor> else \<lfloor>x * 32768\<rfloor>) + 32768) mod 65536
         - 32768"
      by (rule general)
    show "sint (ToInt16 (x * 32768)) = \<lfloor>x * 32768\<rfloor> - 65536" if "1 \<le> x \<and> x < 2"
      using above [OF that] by (rule conjunct1)
    show "sint (ToInt16 (x * 32768)) < 0" if "1 \<le> x \<and> x < 2"
      using above [OF that] by (rule conjunct2)
    show "sint (ToInt16 (x * 32768)) = 65536 - \<lfloor>- (x * 32768)\<rfloor>"
      if "x * 32768 \<le> - 32769 \<and> - 2 < x"
      using below [OF that] by (rule conjunct1)
    show "0 < sint (ToInt16 (x * 32768))" if "x * 32768 \<le> - 32769 \<and> - 2 < x"
      using below [OF that] by (rule conjunct2)
  qed
qed

theorem full_scale_sample_wraps_witness:
  "sint (ToInt16 (1.25 * 32768)) = - 24576
   \<and> sint (ToInt16 (- 1.25 * 32768)) = 24576
   \<and> sint (ToInt16 (0.5 * 32768)) = 16384"
  using full_scale_sample_wraps [where x = "1.25"] full_scale_sample_wraps [where x = "- 1.25"]
    full_scale_sample_wraps [where x = "0.5"]
  by (simp add: encoder_defs)


subsection \<open>The end of the interview\<close>

text \<open>
  Claim C5. The record that \<^verbatim>\<open>handleEndInterview\<close> passes to \<^verbatim>\<open>onComplete\<close> has the
  duration limit 1500, and its start time is the wall clock's time at that moment minus
  1000 times the difference of 1500 and the remaining seconds: it is computed from the
  countdown, and the component's state holds no time of the connection. The transcript
  of the record is the component's transcript.
\<close>

theorem end_interview_record:
  "\<exists>url. completed (handleEndInterview wall close_throws blob_url st) =
     completed st @
       [\<lparr>startTime = wall (reads st) - (1500 - timeLeft st) * 1000,
         durationLimit = 1500,
         recordingUrl = url,
         session_transcript = transcript st\<rparr>]"
  by (simp add: handleEndInterview_def Let_def split: option.split recorder_state.split)

subsection \<open>What the branches of the message handler leave alone\<close>

lemma transcript_updater_frame:
  "sources (transcript_updater wall st) = sources st"
  "stopped (transcript_updater wall st) = stopped st"
  "started (transcript_updater wall st) = started st"
  "created (transcript_updater wall st) = created st"
  "audioContexts (transcript_updater wall st) = audioContexts st"
  "nextStartTime (transcript_updater wall st) = nextStartTime st"
  "aiBuffer (transcript_updater wall st) = aiBuffer st"
  "candidateBuffer (transcript_updater wall st) = candidateBuffer st"
  "queued (transcript_updater wall st) = queued st"
  "sent (transcript_updater wall st) = sent st"
  "processor (transcript_updater wall st) = processor st"
  "completed (transcript_updater wall st) = completed st"
  by (simp_all add: transcript_updater_def Let_def)

lemma on_turnComplete_frame:
  "sources (on_turnComplete when wall st) = sources st"
  "stopped (on_turnComplete when wall st) = stopped st"
  "started (on_turnComplete when wall st) = started st"
  "created (on_turnComplete when wall st) = created st"
  "audioContexts (on_turnComplete when wall st) = audioContexts st"
  "nextStartTime (on_turnComplete when wall st) = nextStartTime st"
  "sent (on_turnComplete when wall st) = sent st"
  "processor (on_turnComplete when wall st) = processor st"
  "completed (on_turnComplete when wall st) = completed st"
  by (simp_all add: on_turnComplete_def Let_def transcript_updater_frame split: updater_time.split)

lemma on_turnComplete_buffers:
  "aiBuffer (on_turnComplete when wall st) = []"
  "candidateBuffer (on_turnComplete when wall st) = []"
  by (simp_all add: on_turnComplete_def Let_def)

lemma on_interrupted_buffers:
  "aiBuffer (on_interrupted st) = aiBuffer st"
  "candidateBuffer (on_interrupted st) = candidateBuffer st"
  by (simp_all add: on_interrupted_def)

lemma after_audio_turnComplete:
  "turnComplete msg \<Longrightarrow>
   aiBuffer (after_audio when wall msg st) = [] \<and> candidateBuffer (after_audio when wall msg st) = []"
  by (simp add: after_audio_def Let_def on_turnComplete_buffers on_interrupted_buffers)

lemma on_interrupted_result:
  "sources (on_interrupted st) = []"
  "nextStartTime (on_interrupted st) = 0"
  "isAISpeaking (on_interrupted st) = False"
  "stopped (on_interrupted st) = stopped st @ map node (sources st)"
  "audioContexts (on_interrupted st) = audioContexts st"
  "created (on_interrupted st) = created st"
  "started (on_interrupted st) = started st"
  by (simp_all add: on_interrupted_def)

lemma after_audio_interrupted:
  assumes "interrupted msg"
  shows "sources (after_audio when wall msg st) = []"
    and "nextStartTime (after_audio when wall msg st) = 0"
    and "isAISpeaking (after_audio when wall msg st) = False"
    and "stopped (after_audio when wall msg st) = stopped st @ map node (sources st)"
    and "audioContexts (after_audio when wall msg st) = audioContexts st"
    and "created (after_audio when wall msg st) = created st"
    and "started (after_audio when wall msg st) = started st"
  using assms
  by (simp_all add: after_audio_def Let_def on_interrupted_result on_turnComplete_frame
      split: option.split)

lemma onmessage_cases:
  assumes "inlineData msg \<noteq> Undecodable"
  shows "\<exists>st0. onmessage when wall now msg st = after_audio when wall msg st0
           \<and> audioContexts st0 = audioContexts st
           \<and> stopped st0 = stopped st
           \<and> set (sources st) \<subseteq> set (sources st0)"
  using assms
  by (cases "inlineData msg") (auto simp add: onmessage_def schedule_def Let_def)


subsection \<open>The turn assembler's accumulators\<close>

text \<open>
  Claim C8. After a message with the turn-complete signal has been handled, the
  candidate's and the agent's buffer are both empty, whatever they held before, whether
  a record is appended or not, and whenever React runs the updater. The handler reaches
  the turn-complete branch unless the decoding of the message's own audio has failed,
  which is the hypothesis on the message; the branch itself empties both buffers in
  every state.
\<close>

theorem turn_complete_empties_accumulators:
  assumes "turnComplete msg" and "inlineData msg \<noteq> Undecodable"
  shows "aiBuffer (onmessage when wall now msg st) = []
         \<and> candidateBuffer (onmessage when wall now msg st) = []
         \<and> aiBuffer (on_turnComplete when wall st) = []
         \<and> candidateBuffer (on_turnComplete when wall st) = []"
proof -
  obtain st0 where "onmessage when wall now msg st = after_audio when wall msg st0"
    using onmessage_cases [OF assms(2)] by blast
  then show ?thesis
    using after_audio_turnComplete [OF assms(1)] by (simp add: on_turnComplete_buffers)
qed

theorem turn_complete_empties_accumulators_witness:
  "candidateBuffer
     (handle_all AtCall (\<lambda>k. int k)
        [(0, empty_message\<lparr>inputTranscription := Some ''Hello''\<rparr>),
         (0, empty_message\<lparr>outputTranscription := Some ''Hi there''\<rparr>)] (opened :: int room))
     = ''Hello''
   \<and> candidateBuffer
     (handle_all AtCall (\<lambda>k. int k)
        [(0, empty_message\<lparr>inputTranscription := Some ''Hello''\<rparr>),
         (0, empty_message\<lparr>outputTranscription := Some ''Hi there''\<rparr>),
         (0, empty_message\<lparr>turnComplete := True\<rparr>)] (opened :: int room))
     = []
   \<and> aiBuffer
     (handle_all AtCall (\<lambda>k. int k)
        [(0, empty_message\<lparr>inputTranscription := Some ''Hello''\<rparr>),
         (0, empty_message\<lparr>outputTranscription := Some ''Hi there''\<rparr>),
         (0, empty_message\<lparr>turnComplete := True\<rparr>)] (opened :: int room))
     = []"
proof -
  have a: "turnComplete (empty_message\<lparr>turnComplete := True\<rparr> :: int server_message)"
    by simp
  have b: "inlineData (empty_message\<lparr>turnComplete := True\<rparr> :: int server_message) \<noteq> Undecodable"
    by (simp add: empty_message_def)
  show ?thesis
    using turn_complete_empties_accumulators [OF a b, of AtCall "\<lambda>k. int k" 0
        "handle_all AtCall (\<lambda>k. int k)
        [(0, empty_message\<lparr>inputTranscription := Some ''Hello''\<rparr>),
         (0, empty_message\<lparr>outputTranscription := Some ''Hi there''\<rparr>)] (opened :: int room)"]
    by (simp add: handler_defs start_defs)
qed


subsection \<open>The playback scheduler\<close>

lemma after_audio_audio_chunk: "after_audio when wall (audio_chunk d) st = st"
  by (simp add: after_audio_def audio_chunk_def)

lemma onmessage_audio_chunk:
  "audioContexts st \<Longrightarrow>
   onmessage when wall now (audio_chunk d) st =
     schedule d (st\<lparr>isAISpeaking := True, nextStartTime := max (nextStartTime st) now\<rparr>)"
proof -
  have "inlineData (audio_chunk d) = Pcm d" by (simp add: audio_chunk_def)
  then show "audioContexts st \<Longrightarrow> ?thesis" by (simp add: onmessage_def after_audio_audio_chunk)
qed


text \<open>
  Claim C2. After a message with the interrupted signal has been handled, in every
  state, no source is left in the set of active sources, \<^verbatim>\<open>stop\<close> has been called on
  every source that was in the set, the next start time is zero and the agent is not
  speaking. A chunk that arrives next, when the audio clock shows \<open>now'\<close>, starts at
  \<open>now'\<close>: the time before the interruption plays no part. For this last part the audio
  contexts exist, as they do once the session has been started, and the audio clock is
  not negative. The hypothesis on the message is that its own audio, if it has any,
  decodes, so that the handler reaches the interrupted branch.
\<close>

theorem interruption_flushes_playback:
  assumes "interrupted msg" and "inlineData msg \<noteq> Undecodable"
  shows "sources (onmessage when wall now msg st) = []
         \<and> nextStartTime (onmessage when wall now msg st) = 0
         \<and> isAISpeaking (onmessage when wall now msg st) = False
         \<and> set (map node (sources st)) \<subseteq> set (stopped (onmessage when wall now msg st))
         \<and> (audioContexts st \<and> 0 \<le> now' \<longrightarrow>
              started (onmessage when' wall' now' (audio_chunk d) (onmessage when wall now msg st))
                = started (onmessage when wall now msg st) @
                  [\<lparr>node = created (onmessage when wall now msg st), startAt = now',
                    duration = d\<rparr>])"
proof -
  obtain st0 where st0: "onmessage when wall now msg st = after_audio when wall msg st0"
    "audioContexts st0 = audioContexts st" "stopped st0 = stopped st"
    "set (sources st) \<subseteq> set (sources st0)"
    using onmessage_cases [OF assms(2)] by blast
  let ?st = "onmessage when wall now msg st"
  note flushed = after_audio_interrupted [OF assms(1), of "when" wall st0]
  have zero: "nextStartTime ?st = 0" using st0(1) flushed(2) by simp
  have nodes: "set (map node (sources st)) \<subseteq> set (stopped ?st)"
    using st0(1,4) flushed(4) by auto
  have next_chunk: "started (onmessage when' wall' now' (audio_chunk d) ?st)
      = started ?st @ [\<lparr>node = created ?st, startAt = now', duration = d\<rparr>]"
    if "audioContexts st" and "0 \<le> now'"
  proof -
    have ctx: "audioContexts ?st" using st0(1,2) that(1) flushed(5) by simp
    show ?thesis
      using that(2) zero by (simp add: onmessage_audio_chunk [OF ctx] schedule_def Let_def max_def)
  qed
  show ?thesis
    using st0(1) flushed(1,2,3) nodes next_chunk by simp
qed


theorem interruption_flushes_playback_witness:
  "nextStartTime (onmessage AtCall (\<lambda>k. int k) 1 (audio_chunk 10) (opened :: int room)) = 11
   \<and> map node (sources (onmessage AtCall (\<lambda>k. int k) 1 (audio_chunk 10) (opened :: int room))) = [0]
   \<and> stopped (onmessage AtCall (\<lambda>k. int k) 2 (empty_message\<lparr>interrupted := True\<rparr>)
        (onmessage AtCall (\<lambda>k. int k) 1 (audio_chunk 10) (opened :: int room))) = [0]
   \<and> sources (onmessage AtCall (\<lambda>k. int k) 2 (empty_message\<lparr>interrupted := True\<rparr>)
        (onmessage AtCall (\<lambda>k. int k) 1 (audio_chunk 10) (opened :: int room))) = []
   \<and> map startAt (started (onmessage AtCall (\<lambda>k. int k) 3 (audio_chunk 4)
        (onmessage AtCall (\<lambda>k. int k) 2 (empty_message\<lparr>interrupted := True\<rparr>)
          (onmessage AtCall (\<lambda>k. int k) 1 (audio_chunk 10) (opened :: int room))))) = [1, 3]"
proof -
  have a: "interrupted (empty_message\<lparr>interrupted := True\<rparr> :: int server_message)"
    by simp
  have b: "inlineData (empty_message\<lparr>interrupted := True\<rparr> :: int server_message) \<noteq> Undecodable"
    by (simp add: empty_message_def)
  have c: "audioContexts (onmessage AtCall (\<lambda>k. int k) 1 (audio_chunk 10) (opened :: int room))"
    by (simp add: handler_defs start_defs)
  have d: "(0 :: int) \<le> 3" by simp
  show ?thesis
    using interruption_flushes_playback
      [OF a b, of AtCall "\<lambda>k. int k" 2
         "onmessage AtCall (\<lambda>k. int k) 1 (audio_chunk 10) (opened :: int room)" 3
         AtCall "\<lambda>k. int k" 4]
      c d
    by (simp add: handler_defs start_defs)
qed


lemma handle_all_chunks:
  "audioContexts st \<Longrightarrow>
   started (handle_all when wall (map (\<lambda>(now, d). (now, audio_chunk d)) chunks) st)
     = started st @ planned (created st) (nextStartTime st) chunks"
proof (induction chunks arbitrary: st)
  case Nil
  then show ?case by simp
next
  case (Cons c cs)
  obtain now d where c: "c = (now, d)" by (cases c)
  let ?st = "onmessage when wall now (audio_chunk d) st"
  have ctx: "audioContexts ?st"
    using Cons.prems by (simp add: onmessage_audio_chunk schedule_def Let_def)
  have "started (handle_all when wall (map (\<lambda>(now, d). (now, audio_chunk d)) cs) ?st)
          = started ?st @ planned (created ?st) (nextStartTime ?st) cs"
    by (rule Cons.IH [OF ctx])
  then show ?case
    using Cons.prems by (simp add: c onmessage_audio_chunk schedule_def Let_def)
qed

lemma length_planned: "length (planned n b cs) = length cs"
  by (induction cs arbitrary: n b) auto

lemma planned_duration: "i < length cs \<Longrightarrow> duration (planned n b cs ! i) = snd (cs ! i)"
proof (induction cs arbitrary: n b i)
  case Nil
  then show ?case by simp
next
  case (Cons c cs)
  then show ?case by (cases c; cases i) auto
qed

lemma planned_first: "cs \<noteq> [] \<Longrightarrow> startAt (planned n b cs ! 0) = max b (fst (cs ! 0))"
  by (cases cs) auto

lemma planned_next:
  "Suc i < length cs \<Longrightarrow>
   startAt (planned n b cs ! Suc i) = max (startAt (planned n b cs ! i) + snd (cs ! i)) (fst (cs ! Suc i))"
proof (induction cs arbitrary: n b i)
  case Nil
  then show ?case by simp
next
  case (Cons c cs)
  obtain now d where c: "c = (now, d)" by (cases c)
  show ?case
  proof (cases i)
    case 0
    with Cons.prems have "cs \<noteq> []" by auto
    then show ?thesis using 0 by (simp add: c planned_first)
  next
    case (Suc j)
    with Cons.prems have "Suc j < length cs" by simp
    from Cons.IH [OF this] show ?thesis using Suc by (simp add: c)
  qed
qed

lemma planned_not_before_arrival: "i < length cs \<Longrightarrow> fst (cs ! i) \<le> startAt (planned n b cs ! i)"
proof (induction cs arbitrary: n b i)
  case Nil
  then show ?case by simp
next
  case (Cons c cs)
  then show ?case by (cases c; cases i) auto
qed


text \<open>
  Claim C1, as the handler has it. For chunks handled one after the other without an
  interruption, each with the audio clock's time at which the handler meets it: every
  chunk becomes one source with the chunk's duration, no source starts before the
  clock's time at its arrival, the first starts at the maximum of the next start time
  and the clock, and each later one starts at the maximum of the end of the one before
  and the clock. So a chunk never starts before the end of the one before, and it starts
  exactly at that end if and only if it arrives no later than that end.
\<close>

theorem chunks_scheduled_back_to_back:
  assumes "audioContexts st"
  shows "\<exists>new. started (handle_all when wall (map (\<lambda>(now, d). (now, audio_chunk d)) chunks) st)
                 = started st @ new
           \<and> length new = length chunks
           \<and> (\<forall>i < length chunks.
                 duration (new ! i) = snd (chunks ! i) \<and> fst (chunks ! i) \<le> startAt (new ! i))
           \<and> (chunks \<noteq> [] \<longrightarrow> startAt (new ! 0) = max (nextStartTime st) (fst (chunks ! 0)))
           \<and> (\<forall>i. Suc i < length chunks \<longrightarrow>
                 startAt (new ! Suc i)
                   = max (startAt (new ! i) + duration (new ! i)) (fst (chunks ! Suc i))
                 \<and> startAt (new ! i) + duration (new ! i) \<le> startAt (new ! Suc i)
                 \<and> (startAt (new ! Suc i) = startAt (new ! i) + duration (new ! i)
                      \<longleftrightarrow> fst (chunks ! Suc i) \<le> startAt (new ! i) + duration (new ! i)))"
proof (intro exI conjI allI impI)
  let ?new = "planned (created st) (nextStartTime st) chunks"
  show "started (handle_all when wall (map (\<lambda>(now, d). (now, audio_chunk d)) chunks) st)
          = started st @ ?new"
    by (rule handle_all_chunks [OF assms])
  show "length ?new = length chunks" by (rule length_planned)
  show "duration (?new ! i) = snd (chunks ! i)" if "i < length chunks" for i
    using that by (rule planned_duration)
  show "fst (chunks ! i) \<le> startAt (?new ! i)" if "i < length chunks" for i
    using that by (rule planned_not_before_arrival)
  show "startAt (?new ! 0) = max (nextStartTime st) (fst (chunks ! 0))" if "chunks \<noteq> []"
    using that by (rule planned_first)
  show next_start: "startAt (?new ! Suc i)
          = max (startAt (?new ! i) + duration (?new ! i)) (fst (chunks ! Suc i))"
    if "Suc i < length chunks" for i
    using that by (simp add: planned_next planned_duration)
  show "startAt (?new ! i) + duration (?new ! i) \<le> startAt (?new ! Suc i)"
    if "Suc i < length chunks" for i
    using next_start [OF that] by simp
  show "(startAt (?new ! Suc i) = startAt (?new ! i) + duration (?new ! i))
          = (fst (chunks ! Suc i) \<le> startAt (?new ! i) + duration (?new ! i))"
    if "Suc i < length chunks" for i
    using next_start [OF that] by (auto simp add: max_def)
qed

theorem chunks_scheduled_back_to_back_witness:
  "map startAt (started (handle_all AtCall (\<lambda>k. int k)
      [(0, audio_chunk 5), (2, audio_chunk 3), (10, audio_chunk 1)] (opened :: int room)))
     = [0, 5, 10]"
proof -
  have ctx: "audioContexts (opened :: int room)" by (simp add: start_defs)
  show ?thesis
    using chunks_scheduled_back_to_back [OF ctx, of AtCall "\<lambda>k. int k" "[(0, 5), (2, 3), (10, 1)]"]
    by (simp add: handler_defs start_defs)
qed


text \<open>
  The start times are not always \<open>start i + d i\<close>: a chunk that arrives after the end of
  the one before starts at its arrival. Chunks of durations 5, 3 and 1 arrive at 0, 2
  and 10; the third starts at 10, and the second has ended at 8.
\<close>

theorem late_chunk_leaves_a_gap:
  "startAt (started (handle_all AtCall (\<lambda>k. int k)
      [(0, audio_chunk 5), (2, audio_chunk 3), (10, audio_chunk 1)] (opened :: int room)) ! 2)
   \<noteq> startAt (started (handle_all AtCall (\<lambda>k. int k)
      [(0, audio_chunk 5), (2, audio_chunk 3), (10, audio_chunk 1)] (opened :: int room)) ! 1)
     + duration (started (handle_all AtCall (\<lambda>k. int k)
      [(0, audio_chunk 5), (2, audio_chunk 3), (10, audio_chunk 1)] (opened :: int room)) ! 1)"
  by (simp add: handler_defs start_defs)

subsection \<open>Teardown\<close>

lemma handleEndInterview_completed:
  "length (completed (handleEndInterview wall close_throws blob_url st)) = Suc (length (completed st))"
  by (simp add: handleEndInterview_def Let_def)

lemma handleEndInterview_inactive:
  "isActive (handleEndInterview wall close_throws blob_url st) = False"
  by (simp add: handleEndInterview_def Let_def)

lemma handleEndInterview_close_outcome:
  "completed (handleEndInterview wall True blob_url st)
     = completed (handleEndInterview wall False blob_url st)"
  by (simp add: handleEndInterview_def Let_def)


text \<open>
  Claim C6. While the session is active, each of the two triggers of the teardown, the
  end button and the countdown effect run with zero seconds left, passes exactly one
  record to \<^verbatim>\<open>onComplete\<close>. The record is the same whether \<^verbatim>\<open>close()\<close> throws or not.
  After \<^verbatim>\<open>handleEndInterview\<close> the session is not active, and then neither the button nor
  the countdown effect produces another record.
\<close>

theorem teardown_produces_one_record:
  assumes "isActive st"
  shows "length (completed (end_button wall close_throws blob_url st)) = Suc (length (completed st))
         \<and> (timeLeft st = 0 \<longrightarrow>
              length (completed (countdown_effect wall close_throws blob_url st))
                = Suc (length (completed st)))
         \<and> completed (handleEndInterview wall True blob_url st)
             = completed (handleEndInterview wall False blob_url st)
         \<and> isActive (handleEndInterview wall close_throws blob_url st) = False
         \<and> completed (end_button wall' close_throws' blob_url'
                         (handleEndInterview wall close_throws blob_url st))
             = completed (handleEndInterview wall close_throws blob_url st)
         \<and> completed (countdown_effect wall' close_throws' blob_url'
                         (handleEndInterview wall close_throws blob_url st))
             = completed (handleEndInterview wall close_throws blob_url st)"
proof (intro conjI impI)
  show "length (completed (end_button wall close_throws blob_url st)) = Suc (length (completed st))"
    using assms by (simp add: end_button_def handleEndInterview_completed)
  show "length (completed (countdown_effect wall close_throws blob_url st))
          = Suc (length (completed st))" if "timeLeft st = 0"
    using assms that by (simp add: countdown_effect_def handleEndInterview_completed)
  show "completed (handleEndInterview wall True blob_url st)
          = completed (handleEndInterview wall False blob_url st)"
    by (rule handleEndInterview_close_outcome)
  show "isActive (handleEndInterview wall close_throws blob_url st) = False"
    by (rule handleEndInterview_inactive)
  show "completed (end_button wall' close_throws' blob_url'
                         (handleEndInterview wall close_throws blob_url st))
             = completed (handleEndInterview wall close_throws blob_url st)"
    by (simp add: end_button_def handleEndInterview_inactive)
  show "completed (countdown_effect wall' close_throws' blob_url'
                         (handleEndInterview wall close_throws blob_url st))
             = completed (handleEndInterview wall close_throws blob_url st)"
    by (simp add: countdown_effect_def handleEndInterview_inactive)
qed

theorem teardown_produces_one_record_witness:
  "completed (countdown_effect (\<lambda>k. 1700000000000 + int k) True ''blob:recording''
                ((opened :: int room)\<lparr>timeLeft := 0\<rparr>))
     = [\<lparr>startTime = 1699998500000, durationLimit = 1500, recordingUrl = ''blob:recording'',
         session_transcript = []\<rparr>]
   \<and> length (completed (end_button (\<lambda>k. 1700000000000 + int k) True ''blob:recording''
                ((opened :: int room)\<lparr>timeLeft := 0\<rparr>))) = 1"
proof -
  have a: "isActive ((opened :: int room)\<lparr>timeLeft := 0\<rparr>)" by (simp add: start_defs)
  show ?thesis
    using teardown_produces_one_record [OF a, of "\<lambda>k. 1700000000000 + int k" True "''blob:recording''"]
    by (simp add: teardown_defs start_defs Let_def)
qed


subsection \<open>Which frames are sent\<close>

lemma after_audio_capture:
  "sent (after_audio when wall msg st) = sent st"
  "processor (after_audio when wall msg st) = processor st"
  by (simp_all add: after_audio_def Let_def on_interrupted_def on_turnComplete_frame
      split: option.split)

lemma onmessage_capture:
  "sent (onmessage when wall now msg st) = sent st"
  "processor (onmessage when wall now msg st) = processor st"
  by (simp_all add: onmessage_def after_audio_capture schedule_def Let_def
      split: inline_data.split)

lemma updaters_capture:
  "sent ((transcript_updater wall ^^ n) st) = sent st"
  "processor ((transcript_updater wall ^^ n) st) = processor st"
  by (induction n) (simp_all add: transcript_updater_frame)

lemma render_capture:
  "sent (render wall st) = sent st"
  "processor (render wall st) = processor st"
  by (simp_all add: render_def updaters_capture)

lemma handleEndInterview_capture:
  "sent (handleEndInterview wall close_throws blob_url st) = sent st"
  "processor (handleEndInterview wall close_throws blob_url st) = processor st"
  by (simp_all add: handleEndInterview_def Let_def)

lemma step_processor:
  "processor (step wall e st) = (processor st \<or> e = Opened)"
  by (cases e)
     (simp_all add: initCamera_def startSession_def onopen_def session_resolved_def onclose_def
        capture_frame_def onaudioprocess_def onmessage_capture ended_def Let_def render_capture
        countdown_effect_def handleEndInterview_capture tick_def end_button_def)

lemma step_sent_without_processor:
  "\<not> processor st \<Longrightarrow> sent (step wall e st) = sent st"
  by (cases e)
     (simp_all add: initCamera_def startSession_def onopen_def session_resolved_def onclose_def
        capture_frame_def onmessage_capture ended_def Let_def render_capture
        countdown_effect_def handleEndInterview_capture tick_def end_button_def)

lemma run_before_opened:
  "Opened \<notin> set es \<Longrightarrow> \<not> processor st \<Longrightarrow>
   sent (run wall es st) = sent st \<and> \<not> processor (run wall es st)"
proof (induction es arbitrary: st)
  case Nil
  then show ?case by simp
next
  case (Cons e es)
  have "\<not> processor (step wall e st)" using Cons.prems by (auto simp add: step_processor)
  moreover have "Opened \<notin> set es" using Cons.prems by simp
  ultimately have "sent (run wall es (step wall e st)) = sent (step wall e st)
      \<and> \<not> processor (run wall es (step wall e st))"
    by (rule Cons.IH [rotated])
  then show ?case using Cons.prems by (simp add: step_sent_without_processor)
qed


text \<open>
  Claim C4, as the code has it. Before the channel's \<^verbatim>\<open>onopen\<close> callback has run, no
  frame is sent, whatever else happens: the capture callback is installed by \<^verbatim>\<open>onopen\<close>.
  Once it is installed it stays installed through every event, and it hands every
  captured frame to \<^verbatim>\<open>sendRealtimeInput\<close>, whatever the value of \<^verbatim>\<open>isActive\<close>: the
  callback has no test of the session's phase.
\<close>

theorem frames_sent_whenever_callback_installed:
  "(Opened \<notin> set es \<longrightarrow> sent (run wall es initial) = [])
   \<and> (processor st \<longrightarrow>
        sent (capture_frame inputData (st\<lparr>isActive := active\<rparr>))
          = sent st @ [\<lparr>data = encode (concat (map int16_bytes
                                   (map (\<lambda>x. ToInt16 (x * 32768)) inputData))),
                        mimeType = ''audio/pcm;rate=16000''\<rparr>])
   \<and> (processor st \<longrightarrow> processor (step wall e st))"
proof (intro conjI impI)
  show "sent (run wall es initial) = []" if "Opened \<notin> set es"
    using run_before_opened [OF that, of initial wall] by (simp add: initial_def)
  show "sent (capture_frame inputData (st\<lparr>isActive := active\<rparr>))
          = sent st @ [\<lparr>data = encode (concat (map int16_bytes
                                   (map (\<lambda>x. ToInt16 (x * 32768)) inputData))),
                        mimeType = ''audio/pcm;rate=16000''\<rparr>]" if "processor st"
    using that by (simp add: capture_frame_def onaudioprocess_def)
  show "processor (step wall e st)" if "processor st"
    using that by (simp add: step_processor)
qed

theorem frames_sent_whenever_callback_installed_witness:
  "sent (run (\<lambda>k. int k) [Camera, Start, Frame [0.5], Resolved, Closed, Frame [0.5]]
           (initial :: int room)) = []
   \<and> sent (capture_frame [0.5] ((opened :: int room)\<lparr>isActive := False\<rparr>))
       = [\<lparr>data = ''AEA='', mimeType = ''audio/pcm;rate=16000''\<rparr>]
   \<and> processor (step (\<lambda>k. int k) Closed (opened :: int room))"
proof -
  have a: "Opened \<notin> set [Camera, Start, Frame [0.5], Resolved, Closed, Frame [0.5 :: real]]"
    by simp
  have b: "processor (opened :: int room)" by (simp add: start_defs)
  show ?thesis
    using frames_sent_whenever_callback_installed
      [of "[Camera, Start, Frame [0.5], Resolved, Closed, Frame [0.5]]" "\<lambda>k. int k"
          "opened :: int room" "[0.5]" False Closed]
      a b
    by (simp add: encoder_defs start_defs capture_frame_def onaudioprocess_def)
qed


text \<open>
  A frame captured after the session has left the open phase is not dropped. Here
  \<^verbatim>\<open>close()\<close> throws in \<^verbatim>\<open>handleEndInterview\<close>, so the channel is still open; the
  session is not active and nothing has been sent; and the next captured frame is handed
  to \<^verbatim>\<open>sendRealtimeInput\<close>.
\<close>

theorem frame_after_teardown_is_sent:
  "isActive (handleEndInterview (\<lambda>k. int k) True [] (opened :: int room)) = False
   \<and> channelClosed (handleEndInterview (\<lambda>k. int k) True [] (opened :: int room)) = False
   \<and> sent (handleEndInterview (\<lambda>k. int k) True [] (opened :: int room)) = []
   \<and> sent (capture_frame [0.5] (handleEndInterview (\<lambda>k. int k) True [] (opened :: int room)))
       = [\<lparr>data = ''AEA='', mimeType = ''audio/pcm;rate=16000''\<rparr>]"
  by (simp add: capture_frame_def onaudioprocess_def teardown_defs start_defs encoder_defs Let_def)


subsection \<open>The transcript\<close>

lemma chronological_cong:
  "transcript st' = transcript st \<Longrightarrow> reads st' = reads st \<Longrightarrow>
   chronological wall st' = chronological wall st"
  by (simp add: chronological_def)

lemma chronological_later:
  assumes "mono wall" and "chronological wall st"
    and "transcript st' = transcript st" and "reads st \<le> reads st'"
  shows "chronological wall st'"
proof -
  have "wall (reads st) \<le> wall (reads st')" using assms(1,4) by (rule monoD)
  then show ?thesis using assms(2,3) by (fastforce simp add: chronological_def)
qed

lemma chronological_append:
  assumes "mono wall" and "chronological wall st"
    and "transcript st' = transcript st @ [r]" and "timestamp r = wall (reads st)"
    and "reads st' = Suc (reads st)"
  shows "chronological wall st'"
proof -
  have le: "wall (reads st) \<le> wall (Suc (reads st))" using assms(1) by (simp add: monoD)
  have old: "\<forall>x \<in> set (transcript st). timestamp x \<le> wall (reads st)"
    using assms(2) by (simp add: chronological_def)
  have "sorted (map timestamp (transcript st) @ [timestamp r])"
    using assms(2,4) old by (simp add: chronological_def sorted_append)
  moreover have "\<forall>x \<in> set (transcript st @ [r]). timestamp x \<le> wall (Suc (reads st))"
    using old le assms(4) by fastforce
  ultimately show ?thesis using assms(3,5) by (simp add: chronological_def)
qed

lemma chronological_updater:
  assumes "mono wall" and "chronological wall st"
  shows "chronological wall (transcript_updater wall st)"
proof -
  let ?st1 = "if candidateBuffer st = [] then st
              else st\<lparr>transcript := transcript st @
                         [\<lparr>speaker = Candidate, turn_text = candidateBuffer st,
                           timestamp = wall (reads st)\<rparr>],
                       reads := Suc (reads st)\<rparr>"
  have one: "chronological wall ?st1"
  proof (cases "candidateBuffer st = []")
    case True
    then show ?thesis using assms(2) by simp
  next
    case False
    have "chronological wall (st\<lparr>transcript := transcript st @
                         [\<lparr>speaker = Candidate, turn_text = candidateBuffer st,
                           timestamp = wall (reads st)\<rparr>],
                       reads := Suc (reads st)\<rparr>)"
      by (rule chronological_append [OF assms,
            where r = "\<lparr>speaker = Candidate, turn_text = candidateBuffer st,
                        timestamp = wall (reads st)\<rparr>"]) simp_all
    then show ?thesis using False by simp
  qed
  let ?st2 = "if aiBuffer ?st1 = [] then ?st1
              else ?st1\<lparr>transcript := transcript ?st1 @
                         [\<lparr>speaker = AI, turn_text = aiBuffer ?st1,
                           timestamp = wall (reads ?st1)\<rparr>],
                       reads := Suc (reads ?st1)\<rparr>"
  have two: "chronological wall ?st2"
  proof (cases "aiBuffer ?st1 = []")
    case True
    then show ?thesis using one by simp
  next
    case False
    have "chronological wall (?st1\<lparr>transcript := transcript ?st1 @
                         [\<lparr>speaker = AI, turn_text = aiBuffer ?st1,
                           timestamp = wall (reads ?st1)\<rparr>],
                       reads := Suc (reads ?st1)\<rparr>)"
      by (rule chronological_append [OF assms(1) one,
            where r = "\<lparr>speaker = AI, turn_text = aiBuffer ?st1,
                        timestamp = wall (reads ?st1)\<rparr>"]) simp_all
    then show ?thesis using False by (simp only: if_False)
  qed
  have "transcript_updater wall st = ?st2"
    by (simp only: transcript_updater_def Let_def)
  then show ?thesis using two by simp
qed

lemma chronological_updaters:
  "mono wall \<Longrightarrow> chronological wall st \<Longrightarrow> chronological wall ((transcript_updater wall ^^ n) st)"
  by (induction n) (simp_all add: chronological_updater)

lemma chronological_render:
  assumes "mono wall" and "chronological wall st"
  shows "chronological wall (render wall st)"
proof -
  have "chronological wall (st\<lparr>queued := 0\<rparr>)"
    using assms(2) by (simp add: chronological_def)
  then show ?thesis unfolding render_def by (rule chronological_updaters [OF assms(1)])
qed

lemma chronological_on_turnComplete:
  assumes "mono wall" and "chronological wall st"
  shows "chronological wall (on_turnComplete when wall st)"
proof -
  let ?st1 = "if candidateBuffer st = [] \<and> aiBuffer st = [] then st
              else (case when of
                         AtCall \<Rightarrow> transcript_updater wall st
                       | AtRender \<Rightarrow> st\<lparr>queued := Suc (queued st)\<rparr>)"
  have "chronological wall (st\<lparr>queued := Suc (queued st)\<rparr>)"
    using assms(2) by (simp add: chronological_def)
  then have "chronological wall ?st1"
    using assms chronological_updater [OF assms] by (simp split: updater_time.split)
  then have "chronological wall (?st1\<lparr>aiBuffer := [], candidateBuffer := [],
             currentAIResponse := [], currentCandidateInput := []\<rparr>)"
    by (simp add: chronological_def)
  then show ?thesis by (simp only: on_turnComplete_def Let_def)
qed

lemma chronological_on_interrupted:
  "chronological wall (on_interrupted st) = chronological wall st"
  by (simp add: chronological_def on_interrupted_def)

lemma chronological_after_audio:
  assumes "mono wall" and "chronological wall st"
  shows "chronological wall (after_audio when wall msg st)"
proof -
  let ?st1 = "case inputTranscription msg of
                   None \<Rightarrow> st
                 | Some t \<Rightarrow> st\<lparr>candidateBuffer := candidateBuffer st @ t,
                                currentCandidateInput := candidateBuffer st @ t\<rparr>"
  have one: "chronological wall ?st1"
    using assms(2) by (simp add: chronological_def split: option.split)
  let ?st2 = "case outputTranscription msg of
                   None \<Rightarrow> ?st1
                 | Some t \<Rightarrow> ?st1\<lparr>aiBuffer := aiBuffer ?st1 @ t,
                                 currentAIResponse := aiBuffer ?st1 @ t\<rparr>"
  have two: "chronological wall ?st2"
  proof (cases "outputTranscription msg")
    case None
    then show ?thesis using one by simp
  next
    case (Some t)
    have "chronological wall (?st1\<lparr>aiBuffer := aiBuffer ?st1 @ t,
                                 currentAIResponse := aiBuffer ?st1 @ t\<rparr>)
          = chronological wall ?st1"
      by (rule chronological_cong) simp_all
    then show ?thesis using one Some by simp
  qed
  let ?st3 = "if turnComplete msg then on_turnComplete when wall ?st2 else ?st2"
  have three: "chronological wall ?st3"
    using two chronological_on_turnComplete [OF assms(1) two] by simp
  have "after_audio when wall msg st = (if interrupted msg then on_interrupted ?st3 else ?st3)"
    by (simp only: after_audio_def Let_def)
  then show ?thesis using three by (simp add: chronological_on_interrupted)
qed

lemma chronological_onmessage:
  assumes "mono wall" and "chronological wall st"
  shows "chronological wall (onmessage when wall now msg st)"
proof -
  have a: "chronological wall (st\<lparr>isAISpeaking := True\<rparr>)"
    using assms(2) by (simp add: chronological_def)
  have b: "chronological wall (st\<lparr>isAISpeaking := True, nextStartTime := max (nextStartTime st) now\<rparr>)"
    using assms(2) by (simp add: chronological_def)
  have c: "chronological wall
             (schedule d (st\<lparr>isAISpeaking := True, nextStartTime := max (nextStartTime st) now\<rparr>))"
    for d
    using assms(2) by (simp add: chronological_def schedule_def Let_def)
  show ?thesis
    using assms a b c by (simp add: onmessage_def chronological_after_audio split: inline_data.split)
qed

lemma chronological_handleEndInterview:
  assumes "mono wall" and "chronological wall st"
  shows "chronological wall (handleEndInterview wall close_throws blob_url st)"
  by (rule chronological_later [OF assms]) (simp_all add: handleEndInterview_def Let_def)

lemma chronological_step:
  assumes "mono wall" and "chronological wall st"
  shows "chronological wall (step wall e st)"
proof (cases e)
  case (Message "when" now msg)
  then show ?thesis using assms by (simp add: chronological_onmessage)
next
  case Render
  then show ?thesis using assms by (simp add: chronological_render)
next
  case (Effect close_throws blob_url)
  have "chronological wall (st\<lparr>timer := b\<rparr>)" for b
    using assms(2) by (simp add: chronological_def)
  then show ?thesis
    using Effect assms by (simp add: countdown_effect_def chronological_handleEndInterview)
next
  case (EndButton close_throws blob_url)
  then show ?thesis using assms by (simp add: end_button_def chronological_handleEndInterview)
qed (use assms(2) in \<open>simp_all add: chronological_def initCamera_def startSession_def onopen_def
      session_resolved_def onclose_def capture_frame_def onaudioprocess_def ended_def tick_def
      Let_def\<close>)

lemma chronological_run:
  "mono wall \<Longrightarrow> chronological wall st \<Longrightarrow> chronological wall (run wall es st)"
  by (induction es arbitrary: st) (simp_all add: chronological_step)

lemma chronological_initial: "chronological wall initial"
  by (simp add: chronological_def initial_def)


lemma prefix_updater: "prefix (transcript st) (transcript (transcript_updater wall st))"
  by (simp add: transcript_updater_def Let_def)

lemma prefix_updaters: "prefix (transcript st) (transcript ((transcript_updater wall ^^ n) st))"
proof (induction n)
  case 0
  then show ?case by simp
next
  case (Suc n)
  have "prefix (transcript ((transcript_updater wall ^^ n) st))
          (transcript (transcript_updater wall ((transcript_updater wall ^^ n) st)))"
    by (rule prefix_updater)
  with Suc show ?case by (auto intro: prefix_order.trans)
qed

lemma prefix_render: "prefix (transcript st) (transcript (render wall st))"
  using prefix_updaters [where st = "st\<lparr>queued := 0\<rparr>" and wall = wall and n = "queued st"] by (simp add: render_def)

lemma prefix_on_turnComplete: "prefix (transcript st) (transcript (on_turnComplete when wall st))"
  using prefix_updater [where st = st and wall = wall]
  by (simp add: on_turnComplete_def Let_def split: updater_time.split)

lemma prefix_after_audio: "prefix (transcript st) (transcript (after_audio when wall msg st))"
proof -
  have "prefix (transcript st) (transcript (on_turnComplete when wall st'))"
    if "transcript st' = transcript st" for st' :: "'a room"
    using prefix_on_turnComplete [where st = st' and wall = wall] that by simp
  then show ?thesis
    by (simp add: after_audio_def Let_def on_interrupted_def split: option.split)
qed

lemma prefix_onmessage: "prefix (transcript st) (transcript (onmessage when wall now msg st))"
proof -
  have "prefix (transcript st) (transcript (after_audio when wall msg st'))"
    if "transcript st' = transcript st" for st' :: "'a room"
    using prefix_after_audio [where st = st' and wall = wall and msg = msg] that by simp
  then show ?thesis
    by (simp add: onmessage_def schedule_def Let_def split: inline_data.split)
qed

lemma transcript_handleEndInterview:
  "transcript (handleEndInterview wall close_throws blob_url st) = transcript st"
  by (simp add: handleEndInterview_def Let_def)

lemma prefix_step: "prefix (transcript st) (transcript (step wall e st))"
  by (cases e)
     (simp_all add: prefix_onmessage prefix_render initCamera_def startSession_def onopen_def
        session_resolved_def onclose_def capture_frame_def onaudioprocess_def ended_def tick_def
        countdown_effect_def end_button_def transcript_handleEndInterview Let_def)

lemma prefix_run: "prefix (transcript st) (transcript (run wall es st))"
proof (induction es arbitrary: st)
  case Nil
  then show ?case by simp
next
  case (Cons e es)
  have "prefix (transcript st) (transcript (step wall e st))" by (rule prefix_step)
  moreover have "prefix (transcript (step wall e st)) (transcript (run wall es (step wall e st)))"
    by (rule Cons.IH)
  ultimately show ?case by (auto intro: prefix_order.trans)
qed


text \<open>
  Claim C9. Every event leaves the transcript as it is or appends records at its end,
  and so does every sequence of events: the records that are there stay where they are
  and as they are. If the readings of the wall clock do not decrease, the timestamps of
  the transcript of a session, from the mounting of the component on, do not decrease
  along the transcript.
\<close>

theorem transcript_append_only:
  assumes "mono wall"
  shows "prefix (transcript st) (transcript (step wall e st))
         \<and> prefix (transcript st) (transcript (run wall es st))
         \<and> sorted (map timestamp (transcript (run wall es initial)))"
proof -
  have "chronological wall (run wall es initial)"
    using assms chronological_initial by (rule chronological_run)
  then show ?thesis by (simp add: prefix_step prefix_run chronological_def)
qed

theorem transcript_append_only_witness:
  "transcript (run (\<lambda>k. 1000 + int k)
      [Camera, Start, Opened, Resolved,
       Message AtCall 0 (delta Candidate ''Hello''),
       Message AtCall 0 (delta AI ''Hi there''),
       Message AtCall 0 (empty_message\<lparr>turnComplete := True\<rparr>),
       EndButton False []] (initial :: int room))
     = [\<lparr>speaker = Candidate, turn_text = ''Hello'', timestamp = 1000\<rparr>,
        \<lparr>speaker = AI, turn_text = ''Hi there'', timestamp = 1001\<rparr>]"
proof -
  have m: "mono (\<lambda>k. 1000 + int k)" by (rule monoI) simp
  show ?thesis
    using transcript_append_only [OF m, where st = "initial :: int room" and e = Camera
      and es = "[Camera, Start, Opened, Resolved,
       Message AtCall 0 (delta Candidate ''Hello''),
       Message AtCall 0 (delta AI ''Hi there''),
       Message AtCall 0 (empty_message\<lparr>turnComplete := True\<rparr>),
       EndButton False []]"]
    by (simp add: handler_defs event_defs initial_def)
qed


subsection \<open>The records appended at a turn boundary\<close>

lemma onmessage_delta:
  "candidateBuffer (onmessage when wall now (delta who t) st)
     = candidateBuffer st @ (if who = Candidate then t else [])"
  "aiBuffer (onmessage when wall now (delta who t) st)
     = aiBuffer st @ (if who = AI then t else [])"
  "transcript (onmessage when wall now (delta who t) st) = transcript st"
  "reads (onmessage when wall now (delta who t) st) = reads st"
  "queued (onmessage when wall now (delta who t) st) = queued st"
  by (cases who; simp add: onmessage_def after_audio_def empty_message_def Let_def)+

lemma handle_all_deltas:
  "candidateBuffer (handle_all when wall (map (\<lambda>(now, who, t). (now, delta who t)) ds) st)
     = candidateBuffer st @ spoken Candidate ds
   \<and> aiBuffer (handle_all when wall (map (\<lambda>(now, who, t). (now, delta who t)) ds) st)
     = aiBuffer st @ spoken AI ds
   \<and> transcript (handle_all when wall (map (\<lambda>(now, who, t). (now, delta who t)) ds) st)
     = transcript st
   \<and> reads (handle_all when wall (map (\<lambda>(now, who, t). (now, delta who t)) ds) st)
     = reads st
   \<and> queued (handle_all when wall (map (\<lambda>(now, who, t). (now, delta who t)) ds) st)
     = queued st"
proof (induction ds arbitrary: st)
  case Nil
  then show ?case by (simp add: spoken_def)
next
  case (Cons d ds)
  obtain now who t where d: "d = (now, who, t)" by (cases d)
  show ?case
    using Cons.IH [where st = "onmessage when wall now (delta who t) st"]
    by (simp add: d onmessage_delta spoken_def)
qed

lemma onmessage_turn_complete:
  "onmessage when wall now (empty_message\<lparr>turnComplete := True\<rparr>) st = on_turnComplete when wall st"
  by (simp add: onmessage_def after_audio_def empty_message_def Let_def)

lemma transcript_updater_transcript:
  "transcript (transcript_updater wall st) =
     transcript st
     @ (if candidateBuffer st = [] then []
        else [\<lparr>speaker = Candidate, turn_text = candidateBuffer st, timestamp = wall (reads st)\<rparr>])
     @ (if aiBuffer st = [] then []
        else [\<lparr>speaker = AI, turn_text = aiBuffer st,
               timestamp = wall (if candidateBuffer st = [] then reads st else Suc (reads st))\<rparr>])"
  by (simp add: transcript_updater_def Let_def)

lemma turn_complete_applied_at_call:
  assumes "candidateBuffer st = []" and "aiBuffer st = []"
  shows "transcript (onmessage AtCall wall now' (empty_message\<lparr>turnComplete := True\<rparr>)
           (handle_all AtCall wall (map (\<lambda>(now, who, t). (now, delta who t)) ds) st))
     = transcript st
       @ (if spoken Candidate ds = [] then []
          else [\<lparr>speaker = Candidate, turn_text = spoken Candidate ds,
                 timestamp = wall (reads st)\<rparr>])
       @ (if spoken AI ds = [] then []
          else [\<lparr>speaker = AI, turn_text = spoken AI ds,
                 timestamp = wall (if spoken Candidate ds = [] then reads st
                                   else Suc (reads st))\<rparr>])"
  using assms handle_all_deltas [where wall = wall and ds = ds and st = st]
  by (simp add: onmessage_turn_complete on_turnComplete_def Let_def transcript_updater_transcript)

lemma turn_complete_applied_at_render:
  assumes "queued st = 0"
  shows "transcript (render wall (onmessage AtRender wall now' (empty_message\<lparr>turnComplete := True\<rparr>)
           (handle_all AtRender wall (map (\<lambda>(now, who, t). (now, delta who t)) ds) st)))
     = transcript st"
  using assms handle_all_deltas [where wall = wall and ds = ds and st = st]
  by (simp add: onmessage_turn_complete on_turnComplete_def Let_def render_def
      transcript_updater_def)


text \<open>
  Claim C3 at a message that carries the candidate's fragment \<^verbatim>\<open>Hello\<close> together with the
  turn-complete signal, in a session that has just opened, when React queues the updater
  of \<^verbatim>\<open>setTranscript\<close> for the next render (the handler has called
  \<^verbatim>\<open>setCurrentCandidateInput\<close> before, so an update of the component is pending). The
  candidate's buffer is not empty when the turn-complete branch is entered, so one
  updater is queued; line 274 empties the buffers before the handler returns; the updater
  reads the buffers when it runs, finds them empty and appends nothing. The claim asks
  for one Candidate record with the text \<^verbatim>\<open>Hello\<close>. In the same way the fragments
  \<^verbatim>\<open>Hello\<close> of the candidate and \<^verbatim>\<open>Hi there\<close> of the agent, followed by the turn-complete
  signal in a message of its own, leave the transcript empty when the updater is queued.
  Where React runs the updater inside the call, \<open>turn_complete_applied_at_call\<close> gives
  the records of the claim.
\<close>

theorem queued_updater_finds_buffers_empty:
  "queued (onmessage AtRender wall now
             (empty_message\<lparr>inputTranscription := Some ''Hello'', turnComplete := True\<rparr>)
             opened) = 1
   \<and> candidateBuffer (onmessage AtRender wall now
             (empty_message\<lparr>inputTranscription := Some ''Hello'', turnComplete := True\<rparr>)
             opened) = []
   \<and> transcript (render wall (onmessage AtRender wall now
             (empty_message\<lparr>inputTranscription := Some ''Hello'', turnComplete := True\<rparr>)
             opened)) = []
   \<and> transcript (render wall (handle_all AtRender wall
             [(now, delta Candidate ''Hello''), (now, delta AI ''Hi there''),
              (now, empty_message\<lparr>turnComplete := True\<rparr>)]
             opened)) = []"
  by (simp add: handler_defs start_defs render_def)


end
